theory Spec2Isabelle
  imports Main "HOL-Library.AList"
begin

section \<open>JavaScript values\<close>

text \<open>
  The plugin is TypeScript: a setting read from the host is of type \<open>any\<close>, and the
  code tests such values with \<open>||\<close>, \<open>&&\<close>, \<open>=== null\<close>, \<open>=== true\<close> and
  \<open>!== undefined\<close>. The values that can tell these tests apart are modelled; a number is
  an integer here (no NaN), which is enough for truthiness.
\<close>

datatype jsval = Undefined | Null | JBool bool | JNum int | JStr string

fun truthy :: "jsval \<Rightarrow> bool" where
  "truthy Undefined = False"
| "truthy Null = False"
| "truthy (JBool b) = b"
| "truthy (JNum n) = (n \<noteq> 0)"
| "truthy (JStr s) = (s \<noteq> [])"

text \<open>\<open>a || b\<close> is \<open>a\<close> when \<open>a\<close> is truthy and \<open>b\<close> otherwise; \<open>a && b\<close> the reverse.\<close>

definition js_or :: "jsval \<Rightarrow> jsval \<Rightarrow> jsval" where
  "js_or a b = (if truthy a then a else b)"

definition js_and :: "jsval \<Rightarrow> jsval \<Rightarrow> jsval" where
  "js_and a b = (if truthy a then b else a)"

text \<open>
  A plain object is a list of properties; reading a property the object does not have
  gives \<open>undefined\<close>, and \<open>obj?.k\<close> gives \<open>undefined\<close> when the object itself is
  missing.
\<close>

type_synonym jsobj = "(string \<times> jsval) list"

definition get_prop :: "jsobj \<Rightarrow> string \<Rightarrow> jsval" where
  "get_prop obj k = (case map_of obj k of Some v \<Rightarrow> v | None \<Rightarrow> Undefined)"

definition opt_prop :: "jsobj option \<Rightarrow> string \<Rightarrow> jsval" where
  "opt_prop obj k = (case obj of None \<Rightarrow> Undefined | Some ob \<Rightarrow> get_prop ob k)"

datatype error = Error string

section \<open>The host runtime\<close>

text \<open>
  \<open>IAgentRuntime\<close>, \<open>stringToUuid\<close> and \<open>logger\<close> come from \<open>@elizaos/core\<close>, which
  is not part of this package. The runtime's settings storage is therefore an abstract
  state \<open>'r\<close>, and what \<open>getSetting\<close> reads from it and \<open>setSetting\<close> writes to it
  are parameters, as is \<open>stringToUuid\<close>. The agent id and the character are plain
  fields of the runtime object. Host calls and logging calls return normally.
\<close>

record 'r host =
  getSetting :: "'r \<Rightarrow> string \<Rightarrow> jsval"
  setSetting :: "'r \<Rightarrow> string \<Rightarrow> jsval \<Rightarrow> bool \<Rightarrow> 'r"
  stringToUuid :: "string \<Rightarrow> string"

record character =
  settings :: "jsobj option"
  secrets :: "jsobj option"

record 'r runtime =
  agentId :: string
  character :: character
  store :: 'r

section \<open>Sessions, effects and the registry state\<close>

text \<open>
  The sub-controllers (\<open>ClientBase\<close>, \<open>TwitterPostClient\<close>,
  \<open>TwitterInteractionClient\<close>, \<open>TwitterSpaceClient\<close>) live in other files: they are
  opaque handles. A \<open>TwitterClient\<close> is an object, so it carries its identity
  \<open>ref\<close>, the address \<open>new\<close> gave it.
\<close>

datatype ClientBase = ClientBase nat
datatype TwitterPostClient = TwitterPostClient ClientBase
datatype TwitterInteractionClient = TwitterInteractionClient ClientBase
datatype TwitterSpaceClient = TwitterSpaceClient ClientBase

record TwitterClient =
  ref :: nat
  name :: string
  client :: ClientBase
  post :: TwitterPostClient
  interaction :: TwitterInteractionClient
  space :: "TwitterSpaceClient option"

text \<open>
  Everything the code does to the outside is recorded, in order, in a trace: console and
  logger output, \<open>runtime.setSetting\<close>, each \<open>new TwitterClient\<close>, each call of
  \<open>client.client.init()\<close> and each call of a session's \<open>stop()\<close>.
\<close>

datatype event =
    Console string
  | Info string
  | Warn string
  | LogError string error
  | SetSetting string jsval bool
  | New nat
  | Init nat
  | Stop nat

record world =
  next_ref :: nat
  trace :: "event list"

text \<open>
  \<open>state\<close>: a \<open>TwitterClientManager\<close> (its \<open>clients\<close> map, a JavaScript \<open>Map\<close>,
  which keeps insertion order) in its world. \<open>process\<close>: the static field
  \<open>TwitterClientManager.instance\<close> in its world.
\<close>

record state = world +
  clients :: "(string \<times> TwitterClient) list"

record process = world +
  manager_instance :: "(string \<times> TwitterClient) list option"

definition emit :: "event \<Rightarrow> 'a world_scheme \<Rightarrow> 'a world_scheme" where
  "emit e w = w\<lparr>trace := trace w @ [e]\<rparr>"

text \<open>
  What the collaborators do during one call of \<open>createClient\<close>: whether one of the
  constructors run by \<open>new TwitterClient(runtime)\<close> throws, and whether the promise of
  \<open>client.client.init()\<close> rejects.
\<close>

record collab =
  ctor_throws :: "error option"
  init_throws :: "error option"

section \<open>TwitterClient\<close>

text \<open>
  \<^verbatim>\<open>constructor(runtime)\<close>: builds the base client, the post client and the interaction
  client, and the space client only if
  \<^verbatim>\<open>runtime.getSetting("TWITTER_SPACES_ENABLE") === true\<close>.
\<close>

definition TwitterClient_new ::
  "'r host \<Rightarrow> error option \<Rightarrow> 'r runtime \<Rightarrow> state \<Rightarrow> (error + TwitterClient) \<times> state" where
  "TwitterClient_new h ctor rt st =
     (let r = next_ref st;
          st1 = emit (New r) (st\<lparr>next_ref := Suc r\<rparr>);
          st2 = emit (Console ''*** CONSTRUCTING TWITTER CLIENT'') st1;
          st3 = emit (Console ''*** RUNTIME'') st2
      in case ctor of
           Some e \<Rightarrow> (Inl e, st3)
         | None \<Rightarrow>
             (Inr \<lparr>ref = r, name = ''twitter'', client = ClientBase r,
                   post = TwitterPostClient (ClientBase r),
                   interaction = TwitterInteractionClient (ClientBase r),
                   space = (if getSetting h (store rt) ''TWITTER_SPACES_ENABLE'' = JBool True
                            then Some (TwitterSpaceClient (ClientBase r)) else None)\<rparr>,
              st3))"

text \<open>
  \<^verbatim>\<open>async stop() { logger.warn("Twitter client does not support stopping yet"); }\<close>
  Whether this call throws is decided by the logger, which is not in this package: the
  parameter \<open>stop_throws\<close> says, for each session, whether its \<open>stop()\<close> rejects.
\<close>

definition TwitterClient_stop ::
  "(TwitterClient \<Rightarrow> error option) \<Rightarrow> TwitterClient \<Rightarrow> state \<Rightarrow> (error + unit) \<times> state" where
  "TwitterClient_stop stop_throws c st =
     (let st1 = emit (Stop (ref c)) st
      in case stop_throws c of
           Some e \<Rightarrow> (Inl e, st1)
         | None \<Rightarrow> (Inr (), emit (Warn ''Twitter client does not support stopping yet'') st1))"

section \<open>TwitterClientManager\<close>

definition getInstance ::
  "(string \<times> TwitterClient) list option \<Rightarrow> (string \<times> TwitterClient) list" where
  "getInstance inst = (case inst of None \<Rightarrow> [] | Some m \<Rightarrow> m)"

text \<open>\<^verbatim>\<open>return `${clientId}-${agentId}`;\<close>\<close>

definition getClientKey :: "string \<Rightarrow> string \<Rightarrow> string" where
  "getClientKey clientId agent = clientId @ ''-'' @ agent"

definition getClient :: "string \<Rightarrow> string \<Rightarrow> state \<Rightarrow> TwitterClient option" where
  "getClient clientId agent st = map_of (clients st) (getClientKey clientId agent)"

text \<open>
  \<open>createClient\<close> is an \<open>async\<close> function with one \<open>await\<close>. It runs without
  interruption up to \<^verbatim>\<open>await client.client.init()\<close> (\<open>createClient_begin\<close>), where it
  is suspended with its local variables (\<open>Pending\<close>), and runs again without
  interruption once the promise of \<open>init()\<close> has settled (\<open>createClient_resume\<close>).
  The \<open>catch\<close> block logs and throws the error again.
\<close>

datatype pending = Pending TwitterClient string string

datatype progress = Settled "error + TwitterClient" | Suspended pending

definition createClient_begin ::
  "'r host \<Rightarrow> error option \<Rightarrow> 'r runtime \<Rightarrow> string \<Rightarrow> state \<Rightarrow> progress \<times> 'r runtime \<times> state" where
  "createClient_begin h ctor rt clientId st =
     (let st0 = emit (Console (''Creating client '' @ clientId)) st;
          is_null = (getSetting h (store rt) ''TWITTER_2FA_SECRET'' = Null);
          rt1 = (if is_null
                 then rt\<lparr>store := setSetting h (store rt) ''TWITTER_2FA_SECRET'' Undefined False\<rparr>
                 else rt);
          st1 = (if is_null then emit (SetSetting ''TWITTER_2FA_SECRET'' Undefined False) st0 else st0)
      in case getClient clientId (agentId rt1) st1 of
           Some existingClient \<Rightarrow>
             (Settled (Inr existingClient), rt1,
              emit (Info (''Twitter client already exists for '' @ clientId)) st1)
         | None \<Rightarrow>
             (let st2 = emit (Console ''*** CREATING NEW CLIENT'') st1
              in case TwitterClient_new h ctor rt1 st2 of
                   (Inl e, st3) \<Rightarrow>
                     (Settled (Inl e), rt1,
                      emit (LogError (''Failed to create Twitter client for '' @ clientId @ '':'') e) st3)
                 | (Inr c, st3) \<Rightarrow>
                     (let st4 = emit (Console ''*** CLIENT'') st3;
                          st5 = emit (Init (ref c)) st4
                      in (Suspended (Pending c clientId (agentId rt1)), rt1, st5))))"

definition createClient_resume ::
  "error option \<Rightarrow> pending \<Rightarrow> state \<Rightarrow> (error + TwitterClient) \<times> state" where
  "createClient_resume init p st =
     (case p of Pending c clientId agent \<Rightarrow>
        (case init of
           Some e \<Rightarrow>
             (Inl e, emit (LogError (''Failed to create Twitter client for '' @ clientId @ '':'') e) st)
         | None \<Rightarrow>
             (let st1 = emit (Console ''*** CLIENT INITIALIZED'') st;
                  st2 = st1\<lparr>clients := AList.update (getClientKey clientId agent) c (clients st1)\<rparr>;
                  st3 = emit (Console ''*** CLIENT STORED'') st2;
                  st4 = emit (Info (''Created Twitter client for '' @ clientId)) st3
              in (Inr c, st4))))"

text \<open>A call that nothing else interleaves with: resumed as soon as it is suspended.\<close>

definition createClient ::
  "'r host \<Rightarrow> collab \<Rightarrow> 'r runtime \<Rightarrow> string \<Rightarrow> state
     \<Rightarrow> (error + TwitterClient) \<times> 'r runtime \<times> state" where
  "createClient h co rt clientId st =
     (case createClient_begin h (ctor_throws co) rt clientId st of
        (Settled r, rt1, st1) \<Rightarrow> (r, rt1, st1)
      | (Suspended p, rt1, st1) \<Rightarrow>
          (case createClient_resume (init_throws co) p st1 of (r, st2) \<Rightarrow> (r, rt1, st2)))"

text \<open>
  Calls that overlap. JavaScript runs each call up to its \<open>await\<close> before the next
  one starts, so calls made before any continuation has run (as by
  \<^verbatim>\<open>Promise.all(ids.map(() => manager.createClient(runtime, id)))\<close>) are all begun
  first, in the order of the calls (\<open>begin_all\<close>). Each continuation then runs when the
  promise of its own \<open>init()\<close> settles: the schedule \<open>order\<close> lists the calls (by
  index, from 0) in the order in which their promises settle, and is a parameter. The
  result pairs each call's index with what the call resolves to, in that order. A call
  that was not suspended already has its result; an index that names no call is skipped.
\<close>

fun begin_all ::
  "'r host \<Rightarrow> collab list \<Rightarrow> 'r runtime \<Rightarrow> string \<Rightarrow> state \<Rightarrow> progress list \<times> 'r runtime \<times> state" where
  "begin_all h [] rt clientId st = ([], rt, st)"
| "begin_all h (co # cos) rt clientId st =
     (case createClient_begin h (ctor_throws co) rt clientId st of (p, rt1, st1) \<Rightarrow>
        (case begin_all h cos rt1 clientId st1 of (ps, rt2, st2) \<Rightarrow> (p # ps, rt2, st2)))"

fun resume_in_order ::
  "collab list \<Rightarrow> progress list \<Rightarrow> nat list \<Rightarrow> state
     \<Rightarrow> (nat \<times> (error + TwitterClient)) list \<times> state" where
  "resume_in_order cos ps [] st = ([], st)"
| "resume_in_order cos ps (i # order) st =
     (if i < length ps \<and> i < length cos
      then (case ps ! i of
              Settled r \<Rightarrow>
                (case resume_in_order cos ps order st of (rs, st') \<Rightarrow> ((i, r) # rs, st'))
            | Suspended p \<Rightarrow>
                (case createClient_resume (init_throws (cos ! i)) p st of (r, st1) \<Rightarrow>
                   (case resume_in_order cos ps order st1 of (rs, st') \<Rightarrow> ((i, r) # rs, st'))))
      else resume_in_order cos ps order st)"

definition concurrent_createClient ::
  "'r host \<Rightarrow> collab list \<Rightarrow> nat list \<Rightarrow> 'r runtime \<Rightarrow> string \<Rightarrow> state
     \<Rightarrow> (nat \<times> (error + TwitterClient)) list \<times> 'r runtime \<times> state" where
  "concurrent_createClient h cos order rt clientId st =
     (case begin_all h cos rt clientId st of (ps, rt1, st1) \<Rightarrow>
        (case resume_in_order cos ps order st1 of (rs, st2) \<Rightarrow> (rs, rt1, st2)))"

text \<open>
  \<open>stopClient\<close>: the entry is deleted inside the \<open>try\<close>, after \<open>await client.stop()\<close>;
  the \<open>catch\<close> only logs.
\<close>

definition stopClient ::
  "(TwitterClient \<Rightarrow> error option) \<Rightarrow> string \<Rightarrow> string \<Rightarrow> state \<Rightarrow> (error + unit) \<times> state" where
  "stopClient stop_throws clientId agent st =
     (let key = getClientKey clientId agent
      in case map_of (clients st) key of
           None \<Rightarrow> (Inr (), st)
         | Some c \<Rightarrow>
             (case TwitterClient_stop stop_throws c st of
                (Inr _, st1) \<Rightarrow>
                  (Inr (), emit (Info (''Stopped Twitter client for '' @ clientId))
                             (st1\<lparr>clients := AList.delete key (clients st1)\<rparr>))
              | (Inl e, st1) \<Rightarrow>
                  (Inr (), emit (LogError (''Error stopping Twitter client for '' @ clientId @ '':'') e) st1)))"

text \<open>
  \<open>stopAllClients\<close>: the body of the \<open>for\<close> loop for one entry, and the loop. The loop
  deletes only the entry it is at, so the iterator of the \<open>Map\<close> visits every entry the
  map had when the loop started, in order. An error leaving the body would end the loop.
\<close>

definition stopAll_body ::
  "(TwitterClient \<Rightarrow> error option) \<Rightarrow> string \<Rightarrow> TwitterClient \<Rightarrow> state \<Rightarrow> (error + unit) \<times> state" where
  "stopAll_body stop_throws key c st =
     (case TwitterClient_stop stop_throws c st of
        (Inr _, st1) \<Rightarrow> (Inr (), st1\<lparr>clients := AList.delete key (clients st1)\<rparr>)
      | (Inl e, st1) \<Rightarrow> (Inr (), emit (LogError (''Error stopping Twitter client '' @ key @ '':'') e) st1))"

fun stopAll_loop ::
  "(TwitterClient \<Rightarrow> error option) \<Rightarrow> (string \<times> TwitterClient) list \<Rightarrow> state \<Rightarrow> (error + unit) \<times> state" where
  "stopAll_loop stop_throws [] st = (Inr (), st)"
| "stopAll_loop stop_throws ((key, c) # rest) st =
     (case stopAll_body stop_throws key c st of
        (Inl e, st1) \<Rightarrow> (Inl e, st1)
      | (Inr _, st1) \<Rightarrow> stopAll_loop stop_throws rest st1)"

definition stopAllClients ::
  "(TwitterClient \<Rightarrow> error option) \<Rightarrow> state \<Rightarrow> (error + unit) \<times> state" where
  "stopAllClients stop_throws st = stopAll_loop stop_throws (clients st) st"

section \<open>The plugin's start operation\<close>

text \<open>
  One credential field:
  \<^verbatim>\<open>(runtime.getSetting(K) as string) || runtime.character.settings?.K || runtime.character.secrets?.K\<close>
\<close>

definition resolve :: "'r host \<Rightarrow> 'r runtime \<Rightarrow> string \<Rightarrow> jsval" where
  "resolve h rt k =
     js_or (js_or (getSetting h (store rt) k) (opt_prop (settings (character rt)) k))
           (opt_prop (secrets (character rt)) k)"

definition twitterConfig :: "'r host \<Rightarrow> 'r runtime \<Rightarrow> jsobj" where
  "twitterConfig h rt =
     [(''TWITTER_USERNAME'', resolve h rt ''TWITTER_USERNAME''),
      (''TWITTER_PASSWORD'', resolve h rt ''TWITTER_PASSWORD''),
      (''TWITTER_EMAIL'', resolve h rt ''TWITTER_EMAIL''),
      (''TWITTER_2FA_SECRET'', resolve h rt ''TWITTER_2FA_SECRET'')]"

text \<open>\<^verbatim>\<open>Object.fromEntries(Object.entries(twitterConfig).filter(([_, v]) => v !== undefined))\<close>\<close>

definition config :: "'r host \<Rightarrow> 'r runtime \<Rightarrow> jsobj" where
  "config h rt = filter (\<lambda>(_, v). v \<noteq> Undefined) (twitterConfig h rt)"

text \<open>
  \<^verbatim>\<open>config.TWITTER_USERNAME && (config.TWITTER_PASSWORD && config.TWITTER_EMAIL)\<close>,
  as the condition of the \<open>if\<close>.
\<close>

definition enough_settings :: "jsobj \<Rightarrow> bool" where
  "enough_settings cfg =
     truthy (js_and (get_prop cfg ''TWITTER_USERNAME'')
                    (js_and (get_prop cfg ''TWITTER_PASSWORD'') (get_prop cfg ''TWITTER_EMAIL'')))"

datatype ClientInstance = ClientInstance

definition start ::
  "'r host \<Rightarrow> collab \<Rightarrow> 'r runtime \<Rightarrow> process \<Rightarrow> ClientInstance \<times> 'r runtime \<times> process" where
  "start h co rt p =
     (let p1 = emit (Console ''*** STARTING TWITTER CLIENT'') p;
          p2 = emit (Console ''*** RUNTIME'') p1;
          manager = getInstance (manager_instance p2);
          st = \<lparr>next_ref = next_ref p2, trace = trace p2, clients = manager\<rparr>;
          st1 = emit (Console ''*** TWITTER CONFIG'') st;
          cfg = config h rt;
          (rt', st') =
            (if enough_settings cfg
             then (let st2 = emit (Info ''Creating default Twitter client from character settings'') st1;
                       st3 = emit (Console ''*** CREATING DEFAULT CLIENT'') st2
                   in case createClient h co rt (stringToUuid h ''default'') st3 of
                        (Inr _, rt4, st4) \<Rightarrow> (rt4, st4)
                      | (Inl e, rt4, st4) \<Rightarrow>
                          (rt4, emit (LogError ''Failed to create default Twitter client:'' e) st4))
             else (rt, st1))
      in (ClientInstance, rt',
          \<lparr>next_ref = next_ref st', trace = trace st', manager_instance = Some (clients st')\<rparr>))"

text \<open>The handle's \<open>stop()\<close>: \<^verbatim>\<open>await manager.stopAllClients()\<close>.\<close>

definition ClientInstance_stop ::
  "(TwitterClient \<Rightarrow> error option) \<Rightarrow> state \<Rightarrow> (error + unit) \<times> state" where
  "ClientInstance_stop stop_throws st = stopAllClients stop_throws st"

section \<open>Reading the trace\<close>

text \<open>
  The sessions constructed, the sessions whose connection was initialised, the sessions
  whose \<open>stop()\<close> was called and the errors logged, each in the order of the trace.
\<close>

fun constructions :: "event list \<Rightarrow> nat list" where
  "constructions [] = []"
| "constructions (New r # es) = r # constructions es"
| "constructions (_ # es) = constructions es"

fun initializations :: "event list \<Rightarrow> nat list" where
  "initializations [] = []"
| "initializations (Init r # es) = r # initializations es"
| "initializations (_ # es) = initializations es"

fun stops :: "event list \<Rightarrow> nat list" where
  "stops [] = []"
| "stops (Stop r # es) = r # stops es"
| "stops (_ # es) = stops es"

fun logged_errors :: "event list \<Rightarrow> error list" where
  "logged_errors [] = []"
| "logged_errors (LogError m e # es) = e # logged_errors es"
| "logged_errors (_ # es) = logged_errors es"

section \<open>A concrete host\<close>

text \<open>
  A host whose settings storage is a property list: \<open>getSetting\<close> gives \<open>null\<close> for a
  name that is not stored, \<open>setSetting\<close> stores the value. It instantiates the
  theorems below at concrete inputs.
\<close>

definition list_host :: "jsobj host" where
  "list_host =
     \<lparr>getSetting = (\<lambda>s k. case map_of s k of Some v \<Rightarrow> v | None \<Rightarrow> Null),
      setSetting = (\<lambda>s k v secret. AList.update k v s),
      stringToUuid = (\<lambda>s. ''uuid-'' @ s)\<rparr>"

definition plain_runtime :: "string \<Rightarrow> jsobj \<Rightarrow> jsobj runtime" where
  "plain_runtime agent s =
     \<lparr>agentId = agent, character = \<lparr>settings = None, secrets = None\<rparr>, store = s\<rparr>"

definition empty_state :: state where
  "empty_state = \<lparr>next_ref = 0, trace = [], clients = []\<rparr>"

definition ok :: collab where
  "ok = \<lparr>ctor_throws = None, init_throws = None\<rparr>"

text \<open>Runtimes used as concrete inputs.\<close>

definition runtime_two_sources :: "jsobj runtime" where
  "runtime_two_sources =
     \<lparr>agentId = ''agent-1'',
      character = \<lparr>settings = Some [(''TWITTER_USERNAME'', JStr ''b'')],
                   secrets = Some [(''TWITTER_EMAIL'', JStr ''e@x.com'')]\<rparr>,
      store = [(''TWITTER_USERNAME'', JStr ''a'')]\<rparr>"

definition runtime_empty_username :: "jsobj runtime" where
  "runtime_empty_username =
     \<lparr>agentId = ''agent-1'',
      character = \<lparr>settings = Some [(''TWITTER_USERNAME'', JStr [])],
                   secrets = Some [(''TWITTER_USERNAME'', JStr ''b'')]\<rparr>,
      store = []\<rparr>"

definition runtime_empty_email :: "jsobj runtime" where
  "runtime_empty_email =
     \<lparr>agentId = ''agent-1'',
      character = \<lparr>settings = None,
                   secrets = Some [(''TWITTER_USERNAME'', JStr ''a''),
                                   (''TWITTER_PASSWORD'', JStr ''p''),
                                   (''TWITTER_EMAIL'', JStr '''')]\<rparr>,
      store = []\<rparr>"

definition empty_process :: process where
  "empty_process = \<lparr>next_ref = 0, trace = [], manager_instance = None\<rparr>"

definition plain_session :: "nat \<Rightarrow> TwitterClient" where
  "plain_session r =
     \<lparr>ref = r, name = ''twitter'', client = ClientBase r, post = TwitterPostClient (ClientBase r),
      interaction = TwitterInteractionClient (ClientBase r), space = None\<rparr>"

definition two_clients :: state where
  "two_clients =
     \<lparr>next_ref = 2, trace = [],
      clients = [(''a-agent-1'', plain_session 0), (''b-agent-1'', plain_session 1)]\<rparr>"

definition first_stop_throws :: "TwitterClient \<Rightarrow> error option" where
  "first_stop_throws c = (if ref c = 0 then Some (Error ''stop failed'') else None)"

definition init_fails :: collab where
  "init_fails = \<lparr>ctor_throws = None, init_throws = Some (Error ''login failed'')\<rparr>"

section \<open>Lemmas about the trace and property lists\<close>

lemma constructions_append: "constructions (xs @ ys) = constructions xs @ constructions ys"
  by (induction xs rule: constructions.induct) auto

lemma initializations_append:
  "initializations (xs @ ys) = initializations xs @ initializations ys"
  by (induction xs rule: initializations.induct) auto

lemma stops_append: "stops (xs @ ys) = stops xs @ stops ys"
  by (induction xs rule: stops.induct) auto

lemma logged_errors_append: "logged_errors (xs @ ys) = logged_errors xs @ logged_errors ys"
  by (induction xs rule: logged_errors.induct) auto

lemma get_prop_update_other:
  "k \<noteq> k' \<Longrightarrow> get_prop (AList.update k' v cfg) k = get_prop cfg k"
  by (simp add: get_prop_def update_conv')

lemma get_prop_delete_other:
  "k \<noteq> k' \<Longrightarrow> get_prop (AList.delete k' cfg) k = get_prop cfg k"
  by (simp add: get_prop_def delete_conv')

section \<open>Key derivation (C8)\<close>

text \<open>
  C8 says that the key derivation is injective over all (clientId, tenantId) pairs. The
  key is the two strings joined by a hyphen, and both may contain hyphens: the pairs
  \<open>(a-b, c-d-e-f-g)\<close> and \<open>(a, b-c-d-e-f-g)\<close>, whose tenant ids both have the five
  hyphen-separated parts of the \<open>UUID\<close> type, get the same key.
\<close>

theorem getClientKey_collision:
  "getClientKey ''a-b'' ''c-d-e-f-g'' = getClientKey ''a'' ''b-c-d-e-f-g''
   \<and> (''a-b'', ''c-d-e-f-g'') \<noteq> (''a'', ''b-c-d-e-f-g'')"
  by (simp add: getClientKey_def)

text \<open>
  C8, amended: the key is a function of the pair; it is injective over the pairs whose
  tenant ids have the same length (as canonical 36-character UUIDs do), and two different
  tenants sharing one clientId never get the same key.
\<close>

theorem getClientKey_injective:
  "(length a1 = length a2 \<longrightarrow>
      (getClientKey c1 a1 = getClientKey c2 a2) = (c1 = c2 \<and> a1 = a2))
   \<and> ((getClientKey c a1 = getClientKey c a2) = (a1 = a2))"
  by (auto simp: getClientKey_def)

theorem getClientKey_injective_witness:
  "length ''aaaa-bbbb'' = length ''cccc-dddd''
   \<and> getClientKey ''x'' ''aaaa-bbbb'' \<noteq> getClientKey ''x-y'' ''cccc-dddd''
   \<and> getClientKey ''x'' ''aaaa-bbbb'' \<noteq> getClientKey ''x'' ''cccc-dddd''"
  using getClientKey_injective [of "''aaaa-bbbb''" "''cccc-dddd''" "''x''" "''x-y''" "''x''"]
  by simp

section \<open>Credential resolution (C2)\<close>

lemma map_of_config:
  "k \<in> {''TWITTER_USERNAME'', ''TWITTER_PASSWORD'', ''TWITTER_EMAIL'', ''TWITTER_2FA_SECRET''} \<Longrightarrow>
   map_of (config h rt) k = (if resolve h rt k = Undefined then None else Some (resolve h rt k))"
  by (auto simp: config_def twitterConfig_def)

text \<open>
  C2 says that the first source yielding a defined value wins. The sources are chained
  with \<open>||\<close>, which passes over every falsy value: with no runtime setting
  (\<open>getSetting\<close> gives \<open>null\<close>), the character setting \<open>TWITTER_USERNAME\<close> the
  empty string (a defined value) and the character secret \<open>b\<close>, the resolver returns
  \<open>b\<close>, the value of the later source.
\<close>

theorem resolve_defined_counterexample:
  "getSetting list_host (store runtime_empty_username) ''TWITTER_USERNAME'' = Null
   \<and> opt_prop (settings (character runtime_empty_username)) ''TWITTER_USERNAME'' = JStr []
   \<and> JStr [] \<noteq> Undefined
   \<and> opt_prop (secrets (character runtime_empty_username)) ''TWITTER_USERNAME'' = JStr ''b''
   \<and> resolve list_host runtime_empty_username ''TWITTER_USERNAME'' = JStr ''b''"
  by (simp add: runtime_empty_username_def list_host_def resolve_def js_or_def opt_prop_def
      get_prop_def)

text \<open>
  C2, amended: for each credential field the resolver returns the value of the
  highest-precedence source (runtime setting, character settings, character secrets)
  that yields a truthy value, and the value of the character secrets when neither of the
  first two is truthy; so once a source yields a truthy value the later sources do not
  affect the result. The resulting set has the field exactly when the resolved value is
  not \<open>undefined\<close>, and then with the resolved value.
\<close>

theorem resolve_first_truthy:
  assumes "k \<in> {''TWITTER_USERNAME'', ''TWITTER_PASSWORD'', ''TWITTER_EMAIL'', ''TWITTER_2FA_SECRET''}"
  shows "resolve h rt k =
           (if truthy (getSetting h (store rt) k) then getSetting h (store rt) k
            else if truthy (opt_prop (settings (character rt)) k)
                 then opt_prop (settings (character rt)) k
            else opt_prop (secrets (character rt)) k)
         \<and> map_of (config h rt) k =
             (if resolve h rt k = Undefined then None else Some (resolve h rt k))"
  using assms map_of_config [of k h rt] by (simp add: resolve_def js_or_def)

theorem resolve_first_truthy_witness:
  "resolve list_host runtime_two_sources ''TWITTER_USERNAME'' = JStr ''a''
   \<and> map_of (config list_host runtime_two_sources) ''TWITTER_USERNAME'' = Some (JStr ''a'')
   \<and> resolve list_host runtime_two_sources ''TWITTER_EMAIL'' = JStr ''e@x.com''
   \<and> map_of (config list_host runtime_two_sources) ''TWITTER_EMAIL'' = Some (JStr ''e@x.com'')
   \<and> map_of (config list_host runtime_two_sources) ''TWITTER_PASSWORD'' = None"
  using resolve_first_truthy [of "''TWITTER_USERNAME''" list_host runtime_two_sources]
    resolve_first_truthy [of "''TWITTER_EMAIL''" list_host runtime_two_sources]
    resolve_first_truthy [of "''TWITTER_PASSWORD''" list_host runtime_two_sources]
  by (simp add: runtime_two_sources_def list_host_def opt_prop_def get_prop_def)

section \<open>The sufficiency check of start (C3)\<close>

lemma enough_settings_iff:
  "enough_settings cfg \<longleftrightarrow>
     truthy (get_prop cfg ''TWITTER_USERNAME'') \<and> truthy (get_prop cfg ''TWITTER_PASSWORD'')
     \<and> truthy (get_prop cfg ''TWITTER_EMAIL'')"
  by (simp add: enough_settings_def js_and_def)

lemma start_not_enough:
  "\<not> enough_settings (config h rt) \<Longrightarrow>
   start h co rt p =
     (ClientInstance, rt,
      \<lparr>next_ref = next_ref p,
       trace = trace p @ [Console ''*** STARTING TWITTER CLIENT'', Console ''*** RUNTIME'',
                          Console ''*** TWITTER CONFIG''],
       manager_instance = Some (getInstance (manager_instance p))\<rparr>)"
  by (simp add: start_def emit_def Let_def)

lemma config_runtime_empty_email:
  "config list_host runtime_empty_email =
     [(''TWITTER_USERNAME'', JStr ''a''), (''TWITTER_PASSWORD'', JStr ''p''),
      (''TWITTER_EMAIL'', JStr '''')]"
  by (simp add: config_def twitterConfig_def resolve_def js_or_def opt_prop_def get_prop_def
      runtime_empty_email_def list_host_def)

text \<open>
  C3 says that the check holds if and only if username, password and email are present.
  The check tests the three values for truthiness: a character whose secrets give the
  email as the empty string resolves to a set in which all three fields are present, and
  the check fails.
\<close>

theorem start_gate_counterexample:
  "map_of (config list_host runtime_empty_email) ''TWITTER_USERNAME'' = Some (JStr ''a'')
   \<and> map_of (config list_host runtime_empty_email) ''TWITTER_PASSWORD'' = Some (JStr ''p'')
   \<and> map_of (config list_host runtime_empty_email) ''TWITTER_EMAIL'' = Some (JStr '''')
   \<and> \<not> enough_settings (config list_host runtime_empty_email)"
  by (simp add: config_runtime_empty_email enough_settings_def js_and_def get_prop_def)

text \<open>
  C3, amended: the check holds if and only if username, password and email are each
  present with a truthy value (for a string: not empty); the two-factor secret never
  affects the outcome, whether it is set, changed or removed; and when the check fails,
  start creates no session: it only makes sure the registry exists, logs to the console,
  and returns, leaving the runtime as it was.
\<close>

theorem start_gate:
  "(enough_settings cfg \<longleftrightarrow>
      truthy (get_prop cfg ''TWITTER_USERNAME'') \<and> truthy (get_prop cfg ''TWITTER_PASSWORD'')
      \<and> truthy (get_prop cfg ''TWITTER_EMAIL''))
   \<and> enough_settings (AList.update ''TWITTER_2FA_SECRET'' v cfg) = enough_settings cfg
   \<and> enough_settings (AList.delete ''TWITTER_2FA_SECRET'' cfg) = enough_settings cfg
   \<and> (\<not> enough_settings (config h rt) \<longrightarrow>
        start h co rt p =
          (ClientInstance, rt,
           \<lparr>next_ref = next_ref p,
            trace = trace p @ [Console ''*** STARTING TWITTER CLIENT'', Console ''*** RUNTIME'',
                               Console ''*** TWITTER CONFIG''],
            manager_instance = Some (getInstance (manager_instance p))\<rparr>))"
  by (simp add: enough_settings_iff start_not_enough get_prop_update_other get_prop_delete_other)

theorem start_gate_witness:
  "\<not> enough_settings (config list_host (plain_runtime ''agent-1'' [(''TWITTER_USERNAME'', JStr ''a'')]))
   \<and> start list_host ok (plain_runtime ''agent-1'' [(''TWITTER_USERNAME'', JStr ''a'')])
        empty_process =
       (ClientInstance, plain_runtime ''agent-1'' [(''TWITTER_USERNAME'', JStr ''a'')],
        \<lparr>next_ref = 0,
         trace = [Console ''*** STARTING TWITTER CLIENT'', Console ''*** RUNTIME'',
                  Console ''*** TWITTER CONFIG''],
         manager_instance = Some []\<rparr>)
   \<and> enough_settings [(''TWITTER_USERNAME'', JStr ''a''), (''TWITTER_PASSWORD'', JStr ''p''),
                       (''TWITTER_EMAIL'', JStr ''e'')]
   \<and> enough_settings [(''TWITTER_USERNAME'', JStr ''a''), (''TWITTER_PASSWORD'', JStr ''p''),
                       (''TWITTER_EMAIL'', JStr ''e''), (''TWITTER_2FA_SECRET'', JStr ''s'')]"
proof -
  let ?rt = "plain_runtime ''agent-1'' [(''TWITTER_USERNAME'', JStr ''a'')]"
  let ?cfg = "[(''TWITTER_USERNAME'', JStr ''a''), (''TWITTER_PASSWORD'', JStr ''p''),
               (''TWITTER_EMAIL'', JStr ''e'')]"
  have c: "config list_host ?rt = [(''TWITTER_USERNAME'', JStr ''a'')]"
    by (simp add: config_def twitterConfig_def resolve_def js_or_def opt_prop_def get_prop_def
        plain_runtime_def list_host_def)
  have n: "\<not> enough_settings (config list_host ?rt)"
    by (simp add: c enough_settings_def js_and_def get_prop_def)
  have g: "getInstance None = []" by (simp add: getInstance_def)
  show ?thesis
    using n g start_gate [of ?cfg "JStr ''s''" list_host ?rt ok empty_process]
    by (simp add: get_prop_def empty_process_def)
qed

section \<open>The optional Spaces client (C9)\<close>

text \<open>
  C9: a constructed session has the Spaces client if and only if the setting
  \<open>TWITTER_SPACES_ENABLE\<close> read by the constructor is the boolean \<open>true\<close>; any other
  value (\<open>null\<close>, \<open>undefined\<close>, \<open>false\<close>, the string \<open>true\<close>, a number) leaves it
  absent.
\<close>

theorem space_iff_true:
  assumes "TwitterClient_new h ctor rt st = (Inr c, st')"
  shows "(space c \<noteq> None) = (getSetting h (store rt) ''TWITTER_SPACES_ENABLE'' = JBool True)"
  using assms by (auto simp: TwitterClient_new_def Let_def split: option.splits if_splits)

theorem space_iff_true_witness:
  "fst (TwitterClient_new list_host None
          (plain_runtime ''agent-1'' [(''TWITTER_SPACES_ENABLE'', JStr ''true'')]) empty_state)
     = Inr (plain_session 0)
   \<and> space (plain_session 0) = None
   \<and> getSetting list_host
        (store (plain_runtime ''agent-1'' [(''TWITTER_SPACES_ENABLE'', JStr ''true'')]))
        ''TWITTER_SPACES_ENABLE'' \<noteq> JBool True
   \<and> fst (TwitterClient_new list_host None
          (plain_runtime ''agent-1'' [(''TWITTER_SPACES_ENABLE'', JBool True)]) empty_state)
     = Inr ((plain_session 0)\<lparr>space := Some (TwitterSpaceClient (ClientBase 0))\<rparr>)
   \<and> getSetting list_host
        (store (plain_runtime ''agent-1'' [(''TWITTER_SPACES_ENABLE'', JBool True)]))
        ''TWITTER_SPACES_ENABLE'' = JBool True"
proof -
  obtain st1 where
    e1: "TwitterClient_new list_host None
           (plain_runtime ''agent-1'' [(''TWITTER_SPACES_ENABLE'', JStr ''true'')]) empty_state
         = (Inr (plain_session 0), st1)"
    by (simp add: TwitterClient_new_def Let_def emit_def empty_state_def plain_runtime_def
        list_host_def plain_session_def)
  obtain st2 where
    e2: "TwitterClient_new list_host None
           (plain_runtime ''agent-1'' [(''TWITTER_SPACES_ENABLE'', JBool True)]) empty_state
         = (Inr ((plain_session 0)\<lparr>space := Some (TwitterSpaceClient (ClientBase 0))\<rparr>), st2)"
    by (simp add: TwitterClient_new_def Let_def emit_def empty_state_def plain_runtime_def
        list_host_def plain_session_def)
  from space_iff_true [OF e1] space_iff_true [OF e2] e1 e2 show ?thesis
    by (simp add: plain_session_def)
qed

section \<open>Lemmas about createClient\<close>

lemmas eval_defs = createClient_def createClient_begin_def createClient_resume_def
  TwitterClient_new_def getClient_def getClientKey_def emit_def Let_def list_host_def
  plain_runtime_def empty_state_def ok_def plain_session_def concurrent_createClient_def
  stopClient_def stopAllClients_def stopAll_body_def TwitterClient_stop_def two_clients_def
  first_stop_throws_def init_fails_def

lemma begin_frame:
  "createClient_begin h ctor rt clientId st = (pr, rt1, st1) \<Longrightarrow>
     clients st1 = clients st \<and> agentId rt1 = agentId rt \<and> character rt1 = character rt"
  by (auto simp: createClient_begin_def Let_def TwitterClient_new_def emit_def
      split: option.splits if_splits sum.splits prod.splits)

lemma begin_present:
  "getClient clientId (agentId rt) st = Some s \<Longrightarrow>
   createClient_begin h ctor rt clientId st = (pr, rt1, st1) \<Longrightarrow>
     pr = Settled (Inr s) \<and> next_ref st1 = next_ref st
     \<and> constructions (trace st1) = constructions (trace st)
     \<and> initializations (trace st1) = initializations (trace st)"
  by (auto simp: createClient_begin_def Let_def getClient_def emit_def
       constructions_append initializations_append
      split: option.splits if_splits sum.splits prod.splits)

lemma begin_absent_throw:
  "getClient clientId (agentId rt) st = None \<Longrightarrow>
   createClient_begin h (Some e) rt clientId st = (pr, rt1, st1) \<Longrightarrow>
     pr = Settled (Inl e) \<and> logged_errors (trace st1) = logged_errors (trace st) @ [e]"
  by (auto simp: createClient_begin_def Let_def getClient_def emit_def TwitterClient_new_def
       logged_errors_append
      split: option.splits if_splits sum.splits prod.splits)

lemma begin_absent_ok:
  "getClient clientId (agentId rt) st = None \<Longrightarrow>
   createClient_begin h None rt clientId st = (pr, rt1, st1) \<Longrightarrow>
     (\<exists>c. pr = Suspended (Pending c clientId (agentId rt)) \<and> ref c = next_ref st)
     \<and> next_ref st1 = Suc (next_ref st)
     \<and> constructions (trace st1) = constructions (trace st) @ [next_ref st]
     \<and> initializations (trace st1) = initializations (trace st) @ [next_ref st]
     \<and> logged_errors (trace st1) = logged_errors (trace st)"
  by (auto simp: createClient_begin_def Let_def getClient_def emit_def TwitterClient_new_def
       constructions_append initializations_append logged_errors_append
      split: option.splits if_splits sum.splits prod.splits)

lemma resume_ok:
  "createClient_resume None (Pending c clientId agent) st = (r, st1) \<Longrightarrow>
     r = Inr c \<and> map_of (clients st1) (getClientKey clientId agent) = Some c
     \<and> clients st1 = AList.update (getClientKey clientId agent) c (clients st)
     \<and> next_ref st1 = next_ref st
     \<and> constructions (trace st1) = constructions (trace st)
     \<and> initializations (trace st1) = initializations (trace st)"
  by (auto simp: createClient_resume_def Let_def emit_def update_conv'
       constructions_append initializations_append)

lemma resume_throw:
  "createClient_resume (Some e) p st = (r, st1) \<Longrightarrow>
     r = Inl e \<and> clients st1 = clients st \<and> next_ref st1 = next_ref st
     \<and> constructions (trace st1) = constructions (trace st)
     \<and> initializations (trace st1) = initializations (trace st)
     \<and> logged_errors (trace st1) = logged_errors (trace st) @ [e]"
  by (auto simp: createClient_resume_def Let_def emit_def
       constructions_append initializations_append logged_errors_append split: pending.splits)

text \<open>A session that \<open>createClient\<close> returns is the one stored under the key.\<close>

lemma createClient_stored:
  assumes "createClient h co rt clientId st = (Inr s, rt1, st1)"
  shows "getClient clientId (agentId rt1) st1 = Some s"
proof (cases "getClient clientId (agentId rt) st")
  case (Some x)
  obtain pr rtb stb where b: "createClient_begin h (ctor_throws co) rt clientId st = (pr, rtb, stb)"
    by (metis prod_cases3)
  from begin_present [OF Some b] begin_frame [OF b] assms b Some
  show ?thesis by (simp add: createClient_def getClient_def)
next
  case None
  obtain pr rtb stb where b: "createClient_begin h (ctor_throws co) rt clientId st = (pr, rtb, stb)"
    by (metis prod_cases3)
  show ?thesis
  proof (cases "ctor_throws co")
    case (Some e)
    from begin_absent_throw [OF None b [unfolded Some]] assms b show ?thesis
      by (simp add: createClient_def)
  next
    case N: None
    from begin_absent_ok [OF None b [unfolded N]] obtain c where
      pr: "pr = Suspended (Pending c clientId (agentId rt))" by blast
    obtain r st2 where
      rs: "createClient_resume (init_throws co) (Pending c clientId (agentId rt)) stb = (r, st2)"
      by (metis surj_pair)
    show ?thesis
    proof (cases "init_throws co")
      case (Some e)
      from resume_throw [OF rs [unfolded Some]] assms b pr rs show ?thesis
        by (simp add: createClient_def)
    next
      case I: None
      from resume_ok [OF rs [unfolded I]] assms b pr rs begin_frame [OF b] show ?thesis
        by (simp add: createClient_def getClient_def update_conv')
    qed
  qed
qed

text \<open>The path of lines 67 to 71: the key is present.\<close>

lemma createClient_reuse:
  assumes "getClient clientId (agentId rt) st = Some s"
  shows "\<exists>rt1 st1. createClient h co rt clientId st = (Inr s, rt1, st1)
           \<and> agentId rt1 = agentId rt \<and> clients st1 = clients st \<and> next_ref st1 = next_ref st
           \<and> constructions (trace st1) = constructions (trace st)
           \<and> initializations (trace st1) = initializations (trace st)"
proof -
  obtain pr rtb stb where b: "createClient_begin h (ctor_throws co) rt clientId st = (pr, rtb, stb)"
    by (metis prod_cases3)
  from begin_present [OF assms b] begin_frame [OF b] b show ?thesis
    by (simp add: createClient_def)
qed

text \<open>The path of lines 72 to 83, when it returns: the key is absent.\<close>

lemma createClient_fresh:
  assumes "getClient clientId (agentId rt) st = None"
    and "createClient h co rt clientId st = (Inr s, rt1, st1)"
  shows "ref s = next_ref st
         \<and> constructions (trace st1) = constructions (trace st) @ [ref s]
         \<and> initializations (trace st1) = initializations (trace st) @ [ref s]"
proof -
  obtain pr rtb stb where b: "createClient_begin h (ctor_throws co) rt clientId st = (pr, rtb, stb)"
    by (metis prod_cases3)
  show ?thesis
  proof (cases "ctor_throws co")
    case (Some e)
    from begin_absent_throw [OF assms(1) b [unfolded Some]] assms(2) b show ?thesis
      by (simp add: createClient_def)
  next
    case N: None
    from begin_absent_ok [OF assms(1) b [unfolded N]] obtain c where
      pr: "pr = Suspended (Pending c clientId (agentId rt))" and c: "ref c = next_ref st"
      and t: "constructions (trace stb) = constructions (trace st) @ [next_ref st]"
         "initializations (trace stb) = initializations (trace st) @ [next_ref st]" by blast
    obtain r st2 where
      rs: "createClient_resume (init_throws co) (Pending c clientId (agentId rt)) stb = (r, st2)"
      by (metis surj_pair)
    show ?thesis
    proof (cases "init_throws co")
      case (Some e)
      from resume_throw [OF rs [unfolded Some]] assms(2) b pr rs show ?thesis
        by (simp add: createClient_def)
    next
      case I: None
      from resume_ok [OF rs [unfolded I]] assms(2) b pr rs c t show ?thesis
        by (simp add: createClient_def)
    qed
  qed
qed

lemma createClient_absent_ok:
  assumes "getClient clientId (agentId rt) st = None"
    and "ctor_throws co = None" and "init_throws co = None"
  shows "\<exists>s rt1 st1. createClient h co rt clientId st = (Inr s, rt1, st1) \<and> ref s = next_ref st"
proof -
  obtain pr rtb stb where b: "createClient_begin h (ctor_throws co) rt clientId st = (pr, rtb, stb)"
    by (metis prod_cases3)
  from begin_absent_ok [OF assms(1) b [unfolded assms(2)]] obtain c where
    pr: "pr = Suspended (Pending c clientId (agentId rt))" and c: "ref c = next_ref st" by blast
  obtain r st2 where
    rs: "createClient_resume (init_throws co) (Pending c clientId (agentId rt)) stb = (r, st2)"
    by (metis surj_pair)
  from resume_ok [OF rs [unfolded assms(3)]] b pr rs c show ?thesis
    by (simp add: createClient_def)
qed

lemma createClient_throws:
  assumes "getClient clientId (agentId rt) st = None"
    and "ctor_throws co = Some e \<or> ctor_throws co = None \<and> init_throws co = Some e"
  shows "\<exists>rt1 st1. createClient h co rt clientId st = (Inl e, rt1, st1)
           \<and> clients st1 = clients st \<and> agentId rt1 = agentId rt
           \<and> logged_errors (trace st1) = logged_errors (trace st) @ [e]"
proof -
  obtain pr rtb stb where b: "createClient_begin h (ctor_throws co) rt clientId st = (pr, rtb, stb)"
    by (metis prod_cases3)
  from assms(2) show ?thesis
  proof
    assume c: "ctor_throws co = Some e"
    from begin_absent_throw [OF assms(1) b [unfolded c]] begin_frame [OF b] b
    show ?thesis by (simp add: createClient_def)
  next
    assume ci: "ctor_throws co = None \<and> init_throws co = Some e"
    then have c: "ctor_throws co = None" and i: "init_throws co = Some e" by simp_all
    from begin_absent_ok [OF assms(1) b [unfolded c]] obtain s where
      pr: "pr = Suspended (Pending s clientId (agentId rt))"
      and le: "logged_errors (trace stb) = logged_errors (trace st)" by blast
    obtain r st2 where
      rs: "createClient_resume (init_throws co) (Pending s clientId (agentId rt)) stb = (r, st2)"
      by (metis surj_pair)
    from resume_throw [OF rs [unfolded i]] le begin_frame [OF b] b pr rs
    show ?thesis by (simp add: createClient_def)
  qed
qed

section \<open>Sequential reuse (C4)\<close>

text \<open>
  C4: when a call of createClient has returned a session, a second call for the same
  (clientId, tenantId) pair made after it returns the same session, whatever the
  collaborators would do, and it constructs nothing and initialises nothing; if the key
  was absent before the first call, the two calls together construct one session and
  initialise its connection once.
\<close>

theorem createClient_twice:
  assumes "createClient h co1 rt clientId st = (Inr s, rt1, st1)"
  shows "\<exists>rt2 st2. createClient h co2 rt1 clientId st1 = (Inr s, rt2, st2)
           \<and> clients st2 = clients st1
           \<and> constructions (trace st2) = constructions (trace st1)
           \<and> initializations (trace st2) = initializations (trace st1)
           \<and> (getClient clientId (agentId rt) st = None \<longrightarrow>
                constructions (trace st2) = constructions (trace st) @ [ref s]
                \<and> initializations (trace st2) = initializations (trace st) @ [ref s])"
proof -
  from createClient_stored [OF assms] have g: "getClient clientId (agentId rt1) st1 = Some s" .
  from createClient_reuse [OF g, of h co2] obtain rt2 st2 where
    r: "createClient h co2 rt1 clientId st1 = (Inr s, rt2, st2)" "clients st2 = clients st1"
       "constructions (trace st2) = constructions (trace st1)"
       "initializations (trace st2) = initializations (trace st1)" by blast
  have "getClient clientId (agentId rt) st = None \<longrightarrow>
                constructions (trace st2) = constructions (trace st) @ [ref s]
                \<and> initializations (trace st2) = initializations (trace st) @ [ref s]"
    using createClient_fresh [OF _ assms] r by simp
  with r show ?thesis by (intro exI [where x = rt2] exI [where x = st2]) simp
qed

theorem createClient_twice_witness:
  "fst (createClient list_host ok (plain_runtime ''agent-1'' []) ''c'' empty_state)
     = Inr (plain_session 0)
   \<and> (\<exists>rt2 st2.
         createClient list_host ok
           (fst (snd (createClient list_host ok (plain_runtime ''agent-1'' []) ''c'' empty_state)))
           ''c''
           (snd (snd (createClient list_host ok (plain_runtime ''agent-1'' []) ''c'' empty_state)))
           = (Inr (plain_session 0), rt2, st2)
         \<and> constructions (trace st2) = [0] \<and> initializations (trace st2) = [0])"
proof -
  obtain rt1 st1 where
    e: "createClient list_host ok (plain_runtime ''agent-1'' []) ''c'' empty_state
          = (Inr (plain_session 0), rt1, st1)"
    by (simp add: eval_defs)
  have a: "getClient ''c'' (agentId (plain_runtime ''agent-1'' [])) empty_state = None"
    by (simp add: getClient_def empty_state_def)
  from createClient_twice [OF e, of ok] a e show ?thesis
    by (auto simp: plain_session_def empty_state_def)
qed

section \<open>Failed creation (C5)\<close>

text \<open>
  C5: if the construction of the session or the initialisation of its connection fails
  inside createClient (for a key that has no session yet), the error is logged and
  propagates to the caller, the registry map is unchanged, and a later createClient for
  the same key tries again: when nothing fails then, it constructs a new session and
  stores it.
\<close>

theorem createClient_failure:
  assumes "getClient clientId (agentId rt) st = None"
    and "ctor_throws co = Some e \<or> ctor_throws co = None \<and> init_throws co = Some e"
  shows "\<exists>rt1 st1. createClient h co rt clientId st = (Inl e, rt1, st1)
           \<and> clients st1 = clients st
           \<and> logged_errors (trace st1) = logged_errors (trace st) @ [e]
           \<and> (\<exists>s rt2 st2. createClient h ok rt1 clientId st1 = (Inr s, rt2, st2)
                  \<and> ref s = next_ref st1
                  \<and> getClient clientId (agentId rt2) st2 = Some s)"
proof -
  from createClient_throws [OF assms, of h] obtain rt1 st1 where
    f: "createClient h co rt clientId st = (Inl e, rt1, st1)" "clients st1 = clients st"
       "agentId rt1 = agentId rt" "logged_errors (trace st1) = logged_errors (trace st) @ [e]"
    by blast
  from f assms(1) have a: "getClient clientId (agentId rt1) st1 = None"
    by (simp add: getClient_def)
  from createClient_absent_ok [OF a, of ok h] obtain s rt2 st2 where
    r: "createClient h ok rt1 clientId st1 = (Inr s, rt2, st2)" "ref s = next_ref st1"
    by (auto simp: ok_def)
  from createClient_stored [OF r(1)] r f show ?thesis by simp
qed

theorem createClient_failure_witness:
  "getClient ''c'' (agentId (plain_runtime ''agent-1'' [])) empty_state = None
   \<and> init_throws init_fails = Some (Error ''login failed'')
   \<and> (\<exists>rt1 st1.
         createClient list_host init_fails (plain_runtime ''agent-1'' []) ''c'' empty_state
           = (Inl (Error ''login failed''), rt1, st1)
         \<and> clients st1 = []
         \<and> logged_errors (trace st1) = [Error ''login failed''])"
proof -
  have a: "getClient ''c'' (agentId (plain_runtime ''agent-1'' [])) empty_state = None"
    by (simp add: getClient_def empty_state_def)
  have b: "ctor_throws init_fails = Some (Error ''login failed'')
           \<or> ctor_throws init_fails = None \<and> init_throws init_fails = Some (Error ''login failed'')"
    by (simp add: init_fails_def)
  from createClient_failure [OF a b, of list_host] a show ?thesis
    by (auto simp: empty_state_def init_fails_def)
qed

section \<open>The write of TWITTER_2FA_SECRET (C10)\<close>

text \<open>
  C10: every call of createClient for which the runtime setting \<open>TWITTER_2FA_SECRET\<close>
  reads as \<open>null\<close> calls \<open>setSetting\<close> for it with \<open>undefined\<close>, right after the
  first console line and before anything that depends on the registry; so the runtime's
  settings are written also when a session already exists for the key, where the call
  returns that session, leaves the map alone and constructs nothing.
\<close>

theorem createClient_clears_null_2fa:
  assumes "getSetting h (store rt) ''TWITTER_2FA_SECRET'' = Null"
  shows "\<exists>r rt1 st1 tr. createClient h co rt clientId st = (r, rt1, st1)
     \<and> store rt1 = setSetting h (store rt) ''TWITTER_2FA_SECRET'' Undefined False
     \<and> trace st1 = trace st @ [Console (''Creating client '' @ clientId),
                               SetSetting ''TWITTER_2FA_SECRET'' Undefined False] @ tr
     \<and> (\<forall>s. getClient clientId (agentId rt) st = Some s \<longrightarrow>
           r = Inr s \<and> clients st1 = clients st
           \<and> tr = [Info (''Twitter client already exists for '' @ clientId)])"
  using assms
  by (auto simp: createClient_def createClient_begin_def createClient_resume_def Let_def
       getClient_def emit_def TwitterClient_new_def
      split: option.splits)

theorem createClient_clears_null_2fa_witness:
  "getSetting list_host (store (plain_runtime ''agent-1'' [])) ''TWITTER_2FA_SECRET'' = Null
   \<and> getClient ''a'' (agentId (plain_runtime ''agent-1'' [])) two_clients = Some (plain_session 0)
   \<and> createClient list_host ok (plain_runtime ''agent-1'' []) ''a'' two_clients
       = (Inr (plain_session 0),
          plain_runtime ''agent-1'' [(''TWITTER_2FA_SECRET'', Undefined)],
          two_clients\<lparr>trace := [Console ''Creating client a'',
                                 SetSetting ''TWITTER_2FA_SECRET'' Undefined False,
                                 Info ''Twitter client already exists for a'']\<rparr>)"
proof -
  have n: "getSetting list_host (store (plain_runtime ''agent-1'' [])) ''TWITTER_2FA_SECRET'' = Null"
    by (simp add: list_host_def plain_runtime_def)
  have g: "getClient ''a'' (agentId (plain_runtime ''agent-1'' [])) two_clients = Some (plain_session 0)"
    by (simp add: getClient_def getClientKey_def two_clients_def plain_runtime_def)
  from createClient_clears_null_2fa [OF n, of ok "''a''" two_clients] n g show ?thesis
    by (simp add: eval_defs)
qed

section \<open>Stopping one session (C6)\<close>

text \<open>
  C6 says that stopClient removes the entry regardless of whether the session's stop
  reported an error. The entry is deleted inside the \<open>try\<close>, after the \<open>await\<close>: when
  the stop of the session under key \<open>a-agent-1\<close> throws, stopClient returns normally
  and the entry is still there.
\<close>

theorem stopClient_counterexample:
  "map_of (clients two_clients) (getClientKey ''a'' ''agent-1'') = Some (plain_session 0)
   \<and> first_stop_throws (plain_session 0) = Some (Error ''stop failed'')
   \<and> fst (stopClient first_stop_throws ''a'' ''agent-1'' two_clients) = Inr ()
   \<and> map_of (clients (snd (stopClient first_stop_throws ''a'' ''agent-1'' two_clients)))
        (getClientKey ''a'' ''agent-1'') = Some (plain_session 0)"
  by (simp add: eval_defs)

text \<open>
  C6, amended: stopClient on a key that is present invokes that session's stop
  operation; when the stop succeeds the entry is removed (and nothing else of the map
  changes); when the stop throws, the entry is not removed, the map is unchanged, and
  the error is logged rather than raised to the caller of stopClient, which returns
  normally in both cases.
\<close>

theorem stopClient_present:
  assumes "map_of (clients st) (getClientKey clientId agent) = Some c"
  shows "\<exists>st1. stopClient stop_throws clientId agent st = (Inr (), st1)
     \<and> next_ref st1 = next_ref st
     \<and> (stop_throws c = None \<longrightarrow>
          clients st1 = AList.delete (getClientKey clientId agent) (clients st)
          \<and> map_of (clients st1) (getClientKey clientId agent) = None
          \<and> trace st1 = trace st @ [Stop (ref c), Warn ''Twitter client does not support stopping yet'',
                                    Info (''Stopped Twitter client for '' @ clientId)])
     \<and> (\<forall>e. stop_throws c = Some e \<longrightarrow>
          clients st1 = clients st
          \<and> trace st1 = trace st @ [Stop (ref c),
               LogError (''Error stopping Twitter client for '' @ clientId @ '':'') e])"
  using assms
  by (auto simp: stopClient_def TwitterClient_stop_def Let_def emit_def delete_conv'
      split: option.splits)

theorem stopClient_present_witness:
  "map_of (clients two_clients) (getClientKey ''a'' ''agent-1'') = Some (plain_session 0)
   \<and> first_stop_throws (plain_session 0) = Some (Error ''stop failed'')
   \<and> stopClient first_stop_throws ''a'' ''agent-1'' two_clients
       = (Inr (), two_clients\<lparr>trace := [Stop 0,
             LogError ''Error stopping Twitter client for a:'' (Error ''stop failed'')]\<rparr>)
   \<and> map_of (clients two_clients) (getClientKey ''b'' ''agent-1'') = Some (plain_session 1)
   \<and> first_stop_throws (plain_session 1) = None
   \<and> stopClient first_stop_throws ''b'' ''agent-1'' two_clients
       = (Inr (), \<lparr>next_ref = 2,
                   trace = [Stop 1, Warn ''Twitter client does not support stopping yet'',
                            Info ''Stopped Twitter client for b''],
                   clients = [(''a-agent-1'', plain_session 0)]\<rparr>)"
proof -
  have a: "map_of (clients two_clients) (getClientKey ''a'' ''agent-1'') = Some (plain_session 0)"
    by (simp add: two_clients_def getClientKey_def)
  have b: "map_of (clients two_clients) (getClientKey ''b'' ''agent-1'') = Some (plain_session 1)"
    by (simp add: two_clients_def getClientKey_def)
  from stopClient_present [OF a, of first_stop_throws] stopClient_present [OF b, of first_stop_throws]
    a b show ?thesis
    by (simp add: eval_defs)
qed

section \<open>Stopping all sessions (C7)\<close>

lemma stopAll_body_result:
  "stopAll_body sf k c st = (r, st1) \<Longrightarrow>
     r = Inr () \<and> next_ref st1 = next_ref st
     \<and> clients st1 = (if sf c = None then AList.delete k (clients st) else clients st)
     \<and> stops (trace st1) = stops (trace st) @ [ref c]
     \<and> logged_errors (trace st1)
         = logged_errors (trace st) @ (case sf c of None \<Rightarrow> [] | Some e \<Rightarrow> [e])"
  by (auto simp: stopAll_body_def TwitterClient_stop_def Let_def emit_def stops_append
      logged_errors_append split: option.splits)

text \<open>
  The loop over any list of entries: it ends normally, has called stop on each entry,
  has logged each error, and has deleted the keys of the entries whose stop succeeded.
\<close>

lemma stopAll_loop_result:
  "\<exists>st'. stopAll_loop sf es st = (Inr (), st')
     \<and> next_ref st' = next_ref st
     \<and> clients st' = filter (\<lambda>kc. fst kc \<notin> fst ` {kc \<in> set es. sf (snd kc) = None}) (clients st)
     \<and> stops (trace st') = stops (trace st) @ map (\<lambda>kc. ref (snd kc)) es
     \<and> logged_errors (trace st')
         = logged_errors (trace st) @ List.map_filter (\<lambda>kc. sf (snd kc)) es"
proof (induction es arbitrary: st)
  case Nil
  then show ?case by simp
next
  case (Cons kc es)
  obtain k c where kc: "kc = (k, c)" by (cases kc)
  obtain r st1 where b: "stopAll_body sf k c st = (r, st1)" by (metis surj_pair)
  note br = stopAll_body_result [OF b]
  from Cons.IH [of st1] obtain st' where
    l: "stopAll_loop sf es st1 = (Inr (), st')" "next_ref st' = next_ref st1"
       "clients st' = filter (\<lambda>kc. fst kc \<notin> fst ` {kc \<in> set es. sf (snd kc) = None}) (clients st1)"
       "stops (trace st') = stops (trace st1) @ map (\<lambda>kc. ref (snd kc)) es"
       "logged_errors (trace st')
          = logged_errors (trace st1) @ List.map_filter (\<lambda>kc. sf (snd kc)) es"
    by blast
  have c1: "clients st' = filter (\<lambda>kc'. fst kc' \<notin> fst ` {kc' \<in> set (kc # es). sf (snd kc') = None})
                           (clients st)"
  proof (cases "sf c")
    case None
    have "clients st' = filter (\<lambda>kc. fst kc \<notin> fst ` {kc \<in> set es. sf (snd kc) = None})
             (filter (\<lambda>kc'. k \<noteq> fst kc') (clients st))"
      using l(3) br None by (simp add: AList.delete_eq case_prod_unfold)
    also have "\<dots> = filter (\<lambda>kc'. k \<noteq> fst kc'
                                \<and> fst kc' \<notin> fst ` {kc \<in> set es. sf (snd kc) = None})
             (clients st)"
      by simp
    also have "{kc' \<in> set (kc # es). sf (snd kc') = None}
                 = insert (k, c) {kc \<in> set es. sf (snd kc) = None}"
      using None kc by auto
    then have "(\<lambda>kc'. k \<noteq> fst kc' \<and> fst kc' \<notin> fst ` {kc \<in> set es. sf (snd kc) = None})
                 = (\<lambda>kc'. fst kc' \<notin> fst ` {kc' \<in> set (kc # es). sf (snd kc') = None})"
      by auto
    finally show ?thesis .
  next
    case (Some e)
    then show ?thesis using l(3) br kc by (auto intro!: filter_cong)
  qed
  show ?case
    using b br l c1 kc by (auto split: option.splits)
qed

text \<open>With distinct keys, the entries left are exactly those whose stop threw.\<close>

lemma filter_stopped_distinct:
  assumes "distinct (map fst es)"
  shows "filter (\<lambda>kc. fst kc \<notin> fst ` {kc \<in> set es. sf (snd kc) = None}) es
         = filter (\<lambda>kc. sf (snd kc) \<noteq> None) es"
proof (rule filter_cong [OF refl])
  fix x assume x: "x \<in> set es"
  show "(fst x \<notin> fst ` {kc \<in> set es. sf (snd kc) = None}) = (sf (snd x) \<noteq> None)"
  proof (cases "sf (snd x)")
    case None
    with x show ?thesis by force
  next
    case (Some e)
    have "fst x \<notin> fst ` {kc \<in> set es. sf (snd kc) = None}"
    proof
      assume "fst x \<in> fst ` {kc \<in> set es. sf (snd kc) = None}"
      then obtain y where y: "y \<in> set es" "sf (snd y) = None" "fst y = fst x" by auto
      from assms x y have "x = y" by (metis eq_key_imp_eq_value prod.collapse)
      with Some y show False by simp
    qed
    with Some show ?thesis by simp
  qed
qed

text \<open>
  C7: stopAllClients calls stop on every entry of the registry, in order; an error
  thrown by one entry's stop is caught and logged and the iteration goes on; every entry
  whose stop succeeds is removed, so the entries left are exactly those whose stop
  threw; and stopAllClients itself returns normally. (The keys of a \<open>Map\<close> are
  distinct.)
\<close>

theorem stopAllClients_isolates_failures:
  assumes "distinct (map fst (clients st))"
  shows "\<exists>st'. stopAllClients sf st = (Inr (), st')
     \<and> clients st' = filter (\<lambda>kc. sf (snd kc) \<noteq> None) (clients st)
     \<and> stops (trace st') = stops (trace st) @ map (\<lambda>kc. ref (snd kc)) (clients st)
     \<and> logged_errors (trace st')
         = logged_errors (trace st) @ List.map_filter (\<lambda>kc. sf (snd kc)) (clients st)"
  using stopAll_loop_result [of sf "clients st" st] filter_stopped_distinct [OF assms, of sf]
  by (auto simp: stopAllClients_def)

theorem stopAllClients_isolates_failures_witness:
  "distinct (map fst (clients two_clients))
   \<and> stopAllClients first_stop_throws two_clients
       = (Inr (), \<lparr>next_ref = 2,
                   trace = [Stop 0, LogError ''Error stopping Twitter client a-agent-1:''
                                      (Error ''stop failed''),
                            Stop 1, Warn ''Twitter client does not support stopping yet''],
                   clients = [(''a-agent-1'', plain_session 0)]\<rparr>)"
proof -
  have d: "distinct (map fst (clients two_clients))" by (simp add: two_clients_def)
  from stopAllClients_isolates_failures [OF d, of first_stop_throws] d show ?thesis
    by (simp add: eval_defs)
qed

section \<open>Calls that overlap (C1)\<close>

lemma begin_all_absent:
  assumes "getClient clientId (agentId rt) st = None"
    and "\<forall>co\<in>set cos. ctor_throws co = None"
  shows "\<exists>cs rt1 st1. begin_all h cos rt clientId st =
            (map (\<lambda>c. Suspended (Pending c clientId (agentId rt))) cs, rt1, st1)
     \<and> map ref cs = [next_ref st ..< next_ref st + length cos]
     \<and> clients st1 = clients st
     \<and> agentId rt1 = agentId rt
     \<and> constructions (trace st1)
         = constructions (trace st) @ [next_ref st ..< next_ref st + length cos]
     \<and> initializations (trace st1)
         = initializations (trace st) @ [next_ref st ..< next_ref st + length cos]"
  using assms
proof (induction cos arbitrary: rt st)
  case Nil
  show ?case by (rule exI [where x = "[]"]) simp
next
  case (Cons co cos)
  obtain pr rtb stb where b: "createClient_begin h (ctor_throws co) rt clientId st = (pr, rtb, stb)"
    by (metis prod_cases3)
  from Cons.prems have c: "ctor_throws co = None" by simp
  from begin_absent_ok [OF Cons.prems(1) b [unfolded c]] obtain s where
    s: "pr = Suspended (Pending s clientId (agentId rt))" "ref s = next_ref st"
       "next_ref stb = Suc (next_ref st)"
       "constructions (trace stb) = constructions (trace st) @ [next_ref st]"
       "initializations (trace stb) = initializations (trace st) @ [next_ref st]" by blast
  note f = begin_frame [OF b]
  from f Cons.prems(1) have a: "getClient clientId (agentId rtb) stb = None"
    by (simp add: getClient_def)
  from Cons.prems(2) have r: "\<forall>co\<in>set cos. ctor_throws co = None" by simp
  from Cons.IH [OF a r] obtain cs rt1 st1 where
    ih: "begin_all h cos rtb clientId stb =
            (map (\<lambda>c. Suspended (Pending c clientId (agentId rtb))) cs, rt1, st1)"
        "map ref cs = [next_ref stb ..< next_ref stb + length cos]"
        "clients st1 = clients stb" "agentId rt1 = agentId rtb"
        "constructions (trace st1)
           = constructions (trace stb) @ [next_ref stb ..< next_ref stb + length cos]"
        "initializations (trace st1)
           = initializations (trace stb) @ [next_ref stb ..< next_ref stb + length cos]"
    by blast
  have u: "[next_ref st ..< next_ref st + length (co # cos)]
             = next_ref st # [Suc (next_ref st) ..< Suc (next_ref st) + length cos]"
    by (subst upt_rec) simp
  show ?case
    apply (rule exI [where x = "s # cs"])
    apply (rule exI [where x = rt1])
    apply (rule exI [where x = st1])
    using b s f ih c u by simp
qed

lemma resume_in_order_ok:
  assumes "\<forall>co\<in>set cos. init_throws co = None" and "length cs = length cos"
    and "\<forall>i\<in>set order. i < length cos"
  shows "\<exists>st2. resume_in_order cos (map (\<lambda>c. Suspended (Pending c clientId agent)) cs) order st1
                  = (map (\<lambda>i. (i, Inr (cs ! i))) order, st2)
     \<and> constructions (trace st2) = constructions (trace st1)
     \<and> initializations (trace st2) = initializations (trace st1)
     \<and> map_of (clients st2) (getClientKey clientId agent)
         = (if order = [] then map_of (clients st1) (getClientKey clientId agent)
            else Some (cs ! last order))"
  using assms(3)
proof (induction order arbitrary: st1)
  case Nil
  show ?case by simp
next
  case (Cons i order)
  from Cons.prems have il: "i < length cos" and r: "\<forall>i\<in>set order. i < length cos"
    by simp_all
  from il assms(1) have it: "init_throws (cos ! i) = None" by simp
  from il assms(2) have p: "map (\<lambda>c. Suspended (Pending c clientId agent)) cs ! i
                              = Suspended (Pending (cs ! i) clientId agent)"
    by simp
  obtain x stb where rs: "createClient_resume None (Pending (cs ! i) clientId agent) st1 = (x, stb)"
    by (metis surj_pair)
  note ro = resume_ok [OF rs]
  from Cons.IH [OF r, of stb] obtain st2 where
    ih: "resume_in_order cos (map (\<lambda>c. Suspended (Pending c clientId agent)) cs) order stb
           = (map (\<lambda>i. (i, Inr (cs ! i))) order, st2)"
        "constructions (trace st2) = constructions (trace stb)"
        "initializations (trace st2) = initializations (trace stb)"
        "map_of (clients st2) (getClientKey clientId agent)
           = (if order = [] then map_of (clients stb) (getClientKey clientId agent)
              else Some (cs ! last order))"
    by blast
  show ?case
    apply (rule exI [where x = st2])
    using rs ro ih it il p assms(2) by (simp add: update_conv')
qed

lemma order_in_range:
  assumes "set order = {..<length (cos :: collab list)}"
  shows "\<forall>i\<in>set order. i < length cos"
  unfolding assms by simp

lemma order_nonempty:
  assumes "set (order :: nat list) = {..<length (cos :: collab list)}"
  shows "cos \<noteq> [] \<longrightarrow> order \<noteq> []"
proof
  assume "cos \<noteq> []"
  then have "0 \<in> {..<length cos}" by simp
  then have "0 \<in> set order" unfolding assms .
  then show "order \<noteq> []" by (cases order) simp_all
qed

text \<open>
  C1 says that N concurrent createClient calls with one key make one construction and
  one initialisation and resolve to the same session, the key being claimed before the
  initialisation begins. The map is written only after \<open>await client.client.init()\<close>:
  two calls started together on an empty registry both find the key absent, construct
  the sessions 0 and 1, start both initialisations, and resolve to different sessions.
\<close>

theorem concurrent_createClient_counterexample:
  "fst (concurrent_createClient list_host [ok, ok] [0, 1] (plain_runtime ''agent-1'' []) ''c''
          empty_state)
     = [(0, Inr (plain_session 0)), (1, Inr (plain_session 1))]
   \<and> plain_session 0 \<noteq> plain_session 1
   \<and> constructions (trace (snd (snd
        (concurrent_createClient list_host [ok, ok] [0, 1] (plain_runtime ''agent-1'' []) ''c''
           empty_state))))
       = [0, 1]
   \<and> initializations (trace (snd (snd
        (concurrent_createClient list_host [ok, ok] [0, 1] (plain_runtime ''agent-1'' []) ''c''
           empty_state))))
       = [0, 1]"
  by (simp add: eval_defs)

text \<open>
  C1, amended: for N createClient calls with an identical key that has no session yet,
  all started before the continuation of any of them has run, and none of which fails,
  each call constructs a session of its own and initialises it (N constructions and N
  initialisations, in the order of the calls), every call resolves to the session it
  constructed, so the N calls resolve to N different sessions, and this holds for every
  order in which the initialisations settle; the registry ends with the session of the
  call whose initialisation settled last. The registry map is not written before all
  the initialisations have begun, so a concurrent caller does not see a claim. Only a
  call that starts after another has stored its session reuses it (C4).
\<close>

theorem concurrent_createClient_each_constructs:
  assumes "getClient clientId (agentId rt) st = None"
    and "\<forall>co\<in>set cos. ctor_throws co = None \<and> init_throws co = None"
    and "distinct order" and "set order = {..<length cos}"
  shows "\<exists>cs rt1 st2.
       concurrent_createClient h cos order rt clientId st
         = (map (\<lambda>i. (i, Inr (cs ! i))) order, rt1, st2)
     \<and> map ref cs = [next_ref st ..< next_ref st + length cos]
     \<and> constructions (trace st2)
         = constructions (trace st) @ [next_ref st ..< next_ref st + length cos]
     \<and> initializations (trace st2)
         = initializations (trace st) @ [next_ref st ..< next_ref st + length cos]
     \<and> (cos \<noteq> [] \<longrightarrow> getClient clientId (agentId rt1) st2 = Some (cs ! last order))
     \<and> clients (snd (snd (begin_all h cos rt clientId st))) = clients st"
proof -
  from assms(2) have c: "\<forall>co\<in>set cos. ctor_throws co = None"
    and i: "\<forall>co\<in>set cos. init_throws co = None" by simp_all
  note o = order_in_range [OF assms(4)]
  from begin_all_absent [OF assms(1) c, of h] obtain cs rt1 st1 where
    b: "begin_all h cos rt clientId st =
            (map (\<lambda>c. Suspended (Pending c clientId (agentId rt))) cs, rt1, st1)"
       "map ref cs = [next_ref st ..< next_ref st + length cos]"
       "clients st1 = clients st" "agentId rt1 = agentId rt"
       "constructions (trace st1)
          = constructions (trace st) @ [next_ref st ..< next_ref st + length cos]"
       "initializations (trace st1)
          = initializations (trace st) @ [next_ref st ..< next_ref st + length cos]"
    by blast
  from b(2) have l: "length cs = length cos"
    by (metis length_map length_upt add_diff_cancel_left')
  from resume_in_order_ok [OF i l o, of clientId "agentId rt" st1] obtain st2 where
    r: "resume_in_order cos (map (\<lambda>c. Suspended (Pending c clientId (agentId rt))) cs) order st1
          = (map (\<lambda>i. (i, Inr (cs ! i))) order, st2)"
       "constructions (trace st2) = constructions (trace st1)"
       "initializations (trace st2) = initializations (trace st1)"
       "map_of (clients st2) (getClientKey clientId (agentId rt))
         = (if order = [] then map_of (clients st1) (getClientKey clientId (agentId rt))
            else Some (cs ! last order))"
    by blast
  note e = order_nonempty [OF assms(4)]
  show ?thesis
    apply (rule exI [where x = cs])
    apply (rule exI [where x = rt1])
    apply (rule exI [where x = st2])
    using b r e by (simp add: concurrent_createClient_def getClient_def)
qed



theorem concurrent_createClient_each_constructs_witness:
  "getClient ''c'' (agentId (plain_runtime ''agent-1'' [])) empty_state = None
   \<and> distinct [1, 0::nat] \<and> set [1, 0::nat] = {..<length [ok, ok]}
   \<and> (\<exists>cs rt1 st2.
         concurrent_createClient list_host [ok, ok] [1, 0] (plain_runtime ''agent-1'' []) ''c''
           empty_state
           = ([(1, Inr (cs ! 1)), (0, Inr (cs ! 0))], rt1, st2)
         \<and> map ref cs = [0, 1]
         \<and> constructions (trace st2) = [0, 1]
         \<and> initializations (trace st2) = [0, 1]
         \<and> getClient ''c'' (agentId rt1) st2 = Some (cs ! 0))
   \<and> getClient ''c'' ''agent-1''
        (snd (snd (concurrent_createClient list_host [ok, ok] [1, 0]
                     (plain_runtime ''agent-1'' []) ''c'' empty_state)))
       = Some (plain_session 0)
   \<and> getClient ''c'' ''agent-1''
        (snd (snd (concurrent_createClient list_host [ok, ok] [0, 1]
                     (plain_runtime ''agent-1'' []) ''c'' empty_state)))
       = Some (plain_session 1)"
proof -
  have a: "getClient ''c'' (agentId (plain_runtime ''agent-1'' [])) empty_state = None"
    by (simp add: getClient_def empty_state_def)
  have b: "\<forall>co\<in>set [ok, ok]. ctor_throws co = None \<and> init_throws co = None"
    by (simp add: ok_def)
  have d: "distinct [1, 0::nat]" by simp
  have s: "set [1, 0::nat] = {..<length [ok, ok]}"
    by (simp add: lessThan_Suc insert_commute)
  from concurrent_createClient_each_constructs [OF a b d s, of list_host] obtain cs rt1 st2 where
    c: "concurrent_createClient list_host [ok, ok] [1, 0] (plain_runtime ''agent-1'' []) ''c''
          empty_state
          = (map (\<lambda>i. (i, Inr (cs ! i))) [1, 0], rt1, st2)"
       "map ref cs = [next_ref empty_state ..< next_ref empty_state + length [ok, ok]]"
       "constructions (trace st2)
          = constructions (trace empty_state)
            @ [next_ref empty_state ..< next_ref empty_state + length [ok, ok]]"
       "initializations (trace st2)
          = initializations (trace empty_state)
            @ [next_ref empty_state ..< next_ref empty_state + length [ok, ok]]"
       "[ok, ok] \<noteq> [] \<longrightarrow> getClient ''c'' (agentId rt1) st2 = Some (cs ! last [1, 0])"
    by blast
  have f: "concurrent_createClient list_host [ok, ok] [1, 0] (plain_runtime ''agent-1'' []) ''c''
             empty_state
           = ([(1, Inr (cs ! 1)), (0, Inr (cs ! 0))], rt1, st2)"
    "map ref cs = [0, 1]" "constructions (trace st2) = [0, 1]"
    "initializations (trace st2) = [0, 1]" "getClient ''c'' (agentId rt1) st2 = Some (cs ! 0)"
    using c by (simp_all add: empty_state_def)
  have x: "\<exists>cs rt1 st2.
         concurrent_createClient list_host [ok, ok] [1, 0] (plain_runtime ''agent-1'' []) ''c''
           empty_state
           = ([(1, Inr (cs ! 1)), (0, Inr (cs ! 0))], rt1, st2)
         \<and> map ref cs = [0, 1]
         \<and> constructions (trace st2) = [0, 1]
         \<and> initializations (trace st2) = [0, 1]
         \<and> getClient ''c'' (agentId rt1) st2 = Some (cs ! 0)"
    using f by (intro conjI exI [where x = cs] exI [where x = rt1] exI [where x = st2])
  have g1: "getClient ''c'' ''agent-1''
        (snd (snd (concurrent_createClient list_host [ok, ok] [1, 0]
                     (plain_runtime ''agent-1'' []) ''c'' empty_state)))
       = Some (plain_session 0)"
    by (simp add: eval_defs)
  have g2: "getClient ''c'' ''agent-1''
        (snd (snd (concurrent_createClient list_host [ok, ok] [0, 1]
                     (plain_runtime ''agent-1'' []) ''c'' empty_state)))
       = Some (plain_session 1)"
    by (simp add: eval_defs)
  from a d s x g1 g2 show ?thesis by (intro conjI)
qed

end
